theory Spec2Isabelle
  imports Main "HOL-Library.AList" "HOL-Library.Sublist" "HOL-Library.Multiset"
begin

section \<open>PlanVault: storage layer and authentication middleware\<close>

text \<open>
  The development embeds \<^verbatim>\<open>server/storage.ts\<close> (both implementations of the
  \<^verbatim>\<open>IStorage\<close> interface), the table declarations of \<^verbatim>\<open>shared/schema.ts\<close> that
  they rely on, and the \<^verbatim>\<open>authenticateUser\<close> middleware of \<^verbatim>\<open>server/routes.ts\<close>.

  Conventions of the embedding:
  \<^item> a JavaScript \<^verbatim>\<open>Date\<close> is its time value, the number of milliseconds since the
    epoch, an \<open>int\<close>; comparisons of dates in the source compare time values (the
    invalid date, whose time value is \<^verbatim>\<open>NaN\<close>, is left out: \<^verbatim>\<open>z.coerce.date()\<close>
    rejects it before an event is stored);
  \<^item> \<^verbatim>\<open>new Date()\<close> and \<^verbatim>\<open>randomUUID()\<close> read the environment, so every operation
    that calls them takes the value read as an argument (one argument per call);
  \<^item> \<^verbatim>\<open>null\<close> in a nullable column is \<open>None\<close>;
  \<^item> a property that an object may lack (a \<^verbatim>\<open>?\<close> key of a zod-inferred type, every key
    of a \<^verbatim>\<open>Partial\<close>) has type \<open>'a optional\<close>: \<open>Absent\<close> when the key is missing or
    \<^verbatim>\<open>undefined\<close>, \<open>Present v\<close> otherwise;
  \<^item> a method that mutates \<^verbatim>\<open>this\<close> returns the new store next to its result.
\<close>

subsection \<open>Rows of the four tables (\<^verbatim>\<open>shared/schema.ts\<close>)\<close>

type_synonym Date = int

datatype 'a optional = Absent | Present 'a

record User =
  id_u :: string
  username_u :: string
  password_u :: string
  recoveryKey_u :: string
  encryptionKey_u :: string
  createdAt_u :: Date

record Event =
  id_e :: string
  userId_e :: string
  title_e :: string
  description_e :: "string option"
  startDate_e :: Date
  endDate_e :: "Date option"
  category_e :: string
  isRecurring_e :: "bool option"
  recurringPattern_e :: "string option"
  recurringEndDate_e :: "Date option"
  encryptedData_e :: "string option"
  createdAt_e :: Date
  updatedAt_e :: Date

record Reminder =
  id_r :: string
  eventId_r :: string
  minutesBefore_r :: int
  isTriggered_r :: "bool option"
  createdAt_r :: Date

record UserSession =
  id_s :: string
  userId_s :: string
  sessionToken_s :: string
  expiresAt_s :: Date
  createdAt_s :: Date

text \<open>
  \<^verbatim>\<open>InsertEvent & { userId: string }\<close>: the type inferred from \<^verbatim>\<open>insertEventSchema\<close>.
  \<^verbatim>\<open>title\<close> and \<^verbatim>\<open>startDate\<close> are required; \<^verbatim>\<open>endDate\<close> and \<^verbatim>\<open>recurringEndDate\<close> are
  required keys that may hold \<^verbatim>\<open>null\<close> (the \<^verbatim>\<open>extend\<close> of the schema); the other keys
  are optional, and nullable where the column is. \<^verbatim>\<open>category\<close> is a plain
  \<^verbatim>\<open>z.string()\<close>: the column is \<^verbatim>\<open>text\<close>.
\<close>

record InsertEvent =
  userId_i :: string
  title_i :: string
  description_i :: "string option optional"
  startDate_i :: Date
  endDate_i :: "Date option"
  category_i :: "string optional"
  isRecurring_i :: "bool option optional"
  recurringPattern_i :: "string option optional"
  recurringEndDate_i :: "Date option"
  encryptedData_i :: "string option optional"

text \<open>\<^verbatim>\<open>Partial<InsertEvent>\<close>: every key may be missing.\<close>

record PartialInsertEvent =
  title_p :: "string optional"
  description_p :: "string option optional"
  startDate_p :: "Date optional"
  endDate_p :: "Date option optional"
  category_p :: "string optional"
  isRecurring_p :: "bool option optional"
  recurringPattern_p :: "string option optional"
  recurringEndDate_p :: "Date option optional"
  encryptedData_p :: "string option optional"

record InsertReminder =
  eventId_ir :: string
  minutesBefore_ir :: int

record InsertSession =
  userId_is :: string
  sessionToken_is :: string
  expiresAt_is :: Date

subsection \<open>JavaScript \<^verbatim>\<open>Map\<close> and \<^verbatim>\<open>||\<close>\<close>

text \<open>
  A \<^verbatim>\<open>Map\<close> keeps its entries in insertion order: \<^verbatim>\<open>set\<close> on a key already present
  replaces the value where it stands, \<^verbatim>\<open>set\<close> on a new key appends, \<^verbatim>\<open>delete\<close> reports
  whether the key was there. An association list with these operations is that structure;
  \<open>wf_Map\<close> says that no key occurs twice, which holds of the empty map and is kept by
  \<open>Map_set\<close> and \<open>Map_delete\<close>.
\<close>

type_synonym ('k, 'v) jsMap = "('k \<times> 'v) list"

definition wf_Map :: "('k, 'v) jsMap \<Rightarrow> bool" where
  "wf_Map m = distinct (map fst m)"

definition Map_get :: "('k, 'v) jsMap \<Rightarrow> 'k \<Rightarrow> 'v option" where
  "Map_get m k = map_of m k"

definition Map_set :: "('k, 'v) jsMap \<Rightarrow> 'k \<Rightarrow> 'v \<Rightarrow> ('k, 'v) jsMap" where
  "Map_set m k v = AList.update k v m"

definition Map_delete :: "('k, 'v) jsMap \<Rightarrow> 'k \<Rightarrow> ('k, 'v) jsMap \<times> bool" where
  "Map_delete m k = (AList.delete k m, map_of m k \<noteq> None)"

definition Map_values :: "('k, 'v) jsMap \<Rightarrow> 'v list" where
  "Map_values m = map snd m"

definition Map_entries :: "('k, 'v) jsMap \<Rightarrow> ('k \<times> 'v) list" where
  "Map_entries m = m"

text \<open>
  \<^verbatim>\<open>a || b\<close> yields \<^verbatim>\<open>b\<close> when \<^verbatim>\<open>a\<close> is falsy. Of the values that occur here,
  \<^verbatim>\<open>undefined\<close>, \<^verbatim>\<open>null\<close>, the empty string, \<^verbatim>\<open>false\<close> and \<^verbatim>\<open>0\<close> are falsy; a
  \<^verbatim>\<open>Date\<close> is an object and always truthy.
\<close>

fun or_null_string :: "string option optional \<Rightarrow> string option" where
  "or_null_string Absent = None"
| "or_null_string (Present None) = None"
| "or_null_string (Present (Some s)) = (if s = [] then None else Some s)"

fun or_null_Date :: "Date option \<Rightarrow> Date option" where
  "or_null_Date None = None"
| "or_null_Date (Some d) = Some d"

fun or_string :: "string optional \<Rightarrow> string \<Rightarrow> string" where
  "or_string Absent d = d"
| "or_string (Present s) d = (if s = [] then d else s)"

fun or_false :: "bool option optional \<Rightarrow> bool" where
  "or_false (Present (Some True)) = True"
| "or_false _ = False"

fun or_number :: "int option \<Rightarrow> int \<Rightarrow> int" where
  "or_number None d = d"
| "or_number (Some n) d = (if n = 0 then d else n)"

subsection \<open>\<^verbatim>\<open>MemStorage\<close>\<close>

record MemStorage =
  users :: "(string, User) jsMap"
  events :: "(string, Event) jsMap"
  reminders :: "(string, Reminder) jsMap"
  sessions :: "(string, UserSession) jsMap"

definition MemStorage_new :: MemStorage where
  "MemStorage_new = \<lparr>users = [], events = [], reminders = [], sessions = []\<rparr>"

definition wf_MemStorage :: "MemStorage \<Rightarrow> bool" where
  "wf_MemStorage s \<longleftrightarrow>
     wf_Map (users s) \<and> wf_Map (events s) \<and> wf_Map (reminders s) \<and> wf_Map (sessions s)"

paragraph \<open>Sessions\<close>

definition MemStorage_createSession :: "MemStorage \<Rightarrow> InsertSession \<Rightarrow> string \<Rightarrow> Date \<Rightarrow> MemStorage \<times> UserSession" where
  "MemStorage_createSession s insertSession uuid now =
     (let session = \<lparr>id_s = uuid, userId_s = userId_is insertSession,
                      sessionToken_s = sessionToken_is insertSession,
                      expiresAt_s = expiresAt_is insertSession, createdAt_s = now\<rparr>
      in (s\<lparr>sessions := Map_set (sessions s) (sessionToken_s session) session\<rparr>, session))"

definition MemStorage_getSession :: "MemStorage \<Rightarrow> string \<Rightarrow> Date \<Rightarrow> UserSession option" where
  "MemStorage_getSession s sessionToken now =
     (case Map_get (sessions s) sessionToken of
        None \<Rightarrow> None
      | Some session \<Rightarrow> if expiresAt_s session > now then Some session else None)"

definition MemStorage_deleteSession :: "MemStorage \<Rightarrow> string \<Rightarrow> MemStorage" where
  "MemStorage_deleteSession s sessionToken = s\<lparr>sessions := fst (Map_delete (sessions s) sessionToken)\<rparr>"

paragraph \<open>Events\<close>

definition MemStorage_getEvents :: "MemStorage \<Rightarrow> string \<Rightarrow> Date option \<Rightarrow> Date option \<Rightarrow> Event list" where
  "MemStorage_getEvents s userId startDate endDate =
     (let userEvents = filter (\<lambda>e. userId_e e = userId) (Map_values (events s));
          userEvents' = (case (startDate, endDate) of
                           (Some sd, Some ed) \<Rightarrow>
                              filter (\<lambda>e. startDate_e e \<ge> sd \<and> startDate_e e \<le> ed) userEvents
                         | _ \<Rightarrow> userEvents)
      in sort_key startDate_e userEvents')"

definition MemStorage_getEvent :: "MemStorage \<Rightarrow> string \<Rightarrow> string \<Rightarrow> Event option" where
  "MemStorage_getEvent s i userId =
     (case Map_get (events s) i of
        None \<Rightarrow> None
      | Some event \<Rightarrow> if userId_e event = userId then Some event else None)"

definition MemStorage_createEvent :: "MemStorage \<Rightarrow> InsertEvent \<Rightarrow> string \<Rightarrow> Date \<Rightarrow> Date \<Rightarrow> MemStorage \<times> Event" where
  "MemStorage_createEvent s insertEvent uuid now1 now2 =
     (let event = \<lparr>id_e = uuid,
                    userId_e = userId_i insertEvent,
                    title_e = title_i insertEvent,
                    description_e = or_null_string (description_i insertEvent),
                    startDate_e = startDate_i insertEvent,
                    endDate_e = or_null_Date (endDate_i insertEvent),
                    category_e = or_string (category_i insertEvent) ''personal'',
                    isRecurring_e = Some (or_false (isRecurring_i insertEvent)),
                    recurringPattern_e = or_null_string (recurringPattern_i insertEvent),
                    recurringEndDate_e = or_null_Date (recurringEndDate_i insertEvent),
                    encryptedData_e = or_null_string (encryptedData_i insertEvent),
                    createdAt_e = now1,
                    updatedAt_e = now2\<rparr>
      in (s\<lparr>events := Map_set (events s) (id_e event) event\<rparr>, event))"

text \<open>
  The object spread \<^verbatim>\<open>{ ...event, ...updates, updatedAt: new Date() }\<close>: a key that
  \<^verbatim>\<open>updates\<close> has replaces the event's, the others stay, and \<^verbatim>\<open>updatedAt\<close> is set last.
\<close>

fun spread :: "'a \<Rightarrow> 'a optional \<Rightarrow> 'a" where
  "spread old Absent = old"
| "spread old (Present v) = v"

definition spread_updates :: "Event \<Rightarrow> PartialInsertEvent \<Rightarrow> Date \<Rightarrow> Event" where
  "spread_updates event updates now =
     event\<lparr>title_e := spread (title_e event) (title_p updates),
           description_e := spread (description_e event) (description_p updates),
           startDate_e := spread (startDate_e event) (startDate_p updates),
           endDate_e := spread (endDate_e event) (endDate_p updates),
           category_e := spread (category_e event) (category_p updates),
           isRecurring_e := spread (isRecurring_e event) (isRecurring_p updates),
           recurringPattern_e := spread (recurringPattern_e event) (recurringPattern_p updates),
           recurringEndDate_e := spread (recurringEndDate_e event) (recurringEndDate_p updates),
           encryptedData_e := spread (encryptedData_e event) (encryptedData_p updates),
           updatedAt_e := now\<rparr>"

definition MemStorage_updateEvent :: "MemStorage \<Rightarrow> string \<Rightarrow> string \<Rightarrow> PartialInsertEvent \<Rightarrow> Date \<Rightarrow> MemStorage \<times> Event option" where
  "MemStorage_updateEvent s i userId updates now =
     (case Map_get (events s) i of
        None \<Rightarrow> (s, None)
      | Some event \<Rightarrow>
          if userId_e event \<noteq> userId then (s, None)
          else (let updatedEvent = spread_updates event updates now
                in (s\<lparr>events := Map_set (events s) i updatedEvent\<rparr>, Some updatedEvent)))"

definition MemStorage_deleteEvent :: "MemStorage \<Rightarrow> string \<Rightarrow> string \<Rightarrow> MemStorage \<times> bool" where
  "MemStorage_deleteEvent s i userId =
     (case Map_get (events s) i of
        None \<Rightarrow> (s, False)
      | Some event \<Rightarrow>
          if userId_e event \<noteq> userId then (s, False)
          else (let (m, r) = Map_delete (events s) i in (s\<lparr>events := m\<rparr>, r)))"

paragraph \<open>Reminders\<close>

definition MemStorage_getEventReminders :: "MemStorage \<Rightarrow> string \<Rightarrow> Reminder list" where
  "MemStorage_getEventReminders s eventId = filter (\<lambda>r. eventId_r r = eventId) (Map_values (reminders s))"

definition MemStorage_createReminder :: "MemStorage \<Rightarrow> InsertReminder \<Rightarrow> string \<Rightarrow> Date \<Rightarrow> MemStorage \<times> Reminder" where
  "MemStorage_createReminder s insertReminder uuid now =
     (let reminder = \<lparr>id_r = uuid, eventId_r = eventId_ir insertReminder,
                       minutesBefore_r = minutesBefore_ir insertReminder,
                       isTriggered_r = Some False, createdAt_r = now\<rparr>
      in (s\<lparr>reminders := Map_set (reminders s) (id_r reminder) reminder\<rparr>, reminder))"

definition MemStorage_deleteReminder :: "MemStorage \<Rightarrow> string \<Rightarrow> MemStorage \<times> bool" where
  "MemStorage_deleteReminder s i = (let (m, r) = Map_delete (reminders s) i in (s\<lparr>reminders := m\<rparr>, r))"

paragraph \<open>Statistics\<close>

definition count_event :: "(string, int) jsMap \<Rightarrow> Event \<Rightarrow> (string, int) jsMap" where
  "count_event counts event =
     Map_set counts (category_e event) (or_number (Map_get counts (category_e event)) 0 + 1)"

definition MemStorage_getEventCountsByCategory :: "MemStorage \<Rightarrow> string \<Rightarrow> (string \<times> int) list" where
  "MemStorage_getEventCountsByCategory s userId =
     (let userEvents = filter (\<lambda>e. userId_e e = userId) (Map_values (events s));
          counts = foldl count_event [] userEvents
      in Map_entries counts)"

subsection \<open>\<^verbatim>\<open>DatabaseStorage\<close>\<close>

text \<open>
  \<^verbatim>\<open>DatabaseStorage\<close> sends one SQL statement per method. A table is the list of its
  rows; the statements are read as SQL reads them:
  \<^item> \<^verbatim>\<open>select().from(t).where(c)\<close> keeps the rows that satisfy \<^verbatim>\<open>c\<close>;
    \<^verbatim>\<open>and\<close>, \<^verbatim>\<open>eq\<close>, \<^verbatim>\<open>gte\<close>, \<^verbatim>\<open>lte\<close> are \<open>\<and>\<close>, \<open>=\<close>, \<open>\<ge>\<close>, \<open>\<le>\<close>;
  \<^item> \<^verbatim>\<open>orderBy(col)\<close> sorts ascending by the column (SQL leaves the order of rows with
    equal keys open; the model keeps the table's order among them, and no theorem below
    depends on that choice);
  \<^item> \<^verbatim>\<open>groupBy(col)\<close> with \<^verbatim>\<open>count(*)\<close> yields one row per value of the column that
    occurs, with the number of rows holding it;
  \<^item> \<^verbatim>\<open>const [x] = rows; return x || undefined\<close> is the first row, if any;
  \<^item> \<^verbatim>\<open>result.rowCount\<close> is the number of rows the statement touched;
  \<^item> the constraints are those \<^verbatim>\<open>shared/schema.ts\<close> declares: \<^verbatim>\<open>id\<close> is a primary key,
    \<^verbatim>\<open>session_token\<close> is unique, and \<^verbatim>\<open>reminders.event_id\<close> references
    \<^verbatim>\<open>events.id\<close> with \<^verbatim>\<open>onDelete: "cascade"\<close>.
\<close>

record Database =
  users_t :: "User list"
  events_t :: "Event list"
  reminders_t :: "Reminder list"
  userSessions_t :: "UserSession list"

definition first_row :: "'a list \<Rightarrow> 'a option" where
  "first_row rows = (case rows of [] \<Rightarrow> None | x # _ \<Rightarrow> Some x)"

definition DatabaseStorage_getSession :: "Database \<Rightarrow> string \<Rightarrow> Date \<Rightarrow> UserSession option" where
  "DatabaseStorage_getSession db sessionToken now =
     first_row (filter (\<lambda>r. sessionToken_s r = sessionToken \<and> expiresAt_s r \<ge> now)
                       (userSessions_t db))"

definition DatabaseStorage_deleteSession :: "Database \<Rightarrow> string \<Rightarrow> Database" where
  "DatabaseStorage_deleteSession db sessionToken =
     db\<lparr>userSessions_t := filter (\<lambda>r. sessionToken_s r \<noteq> sessionToken) (userSessions_t db)\<rparr>"

definition DatabaseStorage_getEvents :: "Database \<Rightarrow> string \<Rightarrow> Date option \<Rightarrow> Date option \<Rightarrow> Event list" where
  "DatabaseStorage_getEvents db userId startDate endDate =
     (let conditions = (case (startDate, endDate) of
                          (Some sd, Some ed) \<Rightarrow>
                             (\<lambda>e. userId_e e = userId \<and> startDate_e e \<ge> sd \<and> startDate_e e \<le> ed)
                        | _ \<Rightarrow> (\<lambda>e. userId_e e = userId))
      in sort_key startDate_e (filter conditions (events_t db)))"

definition DatabaseStorage_getEvent :: "Database \<Rightarrow> string \<Rightarrow> string \<Rightarrow> Event option" where
  "DatabaseStorage_getEvent db i userId =
     first_row (filter (\<lambda>e. id_e e = i \<and> userId_e e = userId) (events_t db))"

definition DatabaseStorage_updateEvent :: "Database \<Rightarrow> string \<Rightarrow> string \<Rightarrow> PartialInsertEvent \<Rightarrow> Date \<Rightarrow> Database \<times> Event option" where
  "DatabaseStorage_updateEvent db i userId updates now =
     (let hit = (\<lambda>e. id_e e = i \<and> userId_e e = userId);
          returning = map (\<lambda>e. spread_updates e updates now) (filter hit (events_t db))
      in (db\<lparr>events_t := map (\<lambda>e. if hit e then spread_updates e updates now else e) (events_t db)\<rparr>,
          first_row returning))"

definition DatabaseStorage_deleteEvent :: "Database \<Rightarrow> string \<Rightarrow> string \<Rightarrow> Database \<times> bool" where
  "DatabaseStorage_deleteEvent db i userId =
     (let hit = (\<lambda>e. id_e e = i \<and> userId_e e = userId);
          deleted = filter hit (events_t db);
          rowCount = int (length deleted)
      in (db\<lparr>events_t := filter (\<lambda>e. \<not> hit e) (events_t db),
             reminders_t := filter (\<lambda>r. eventId_r r \<notin> set (map id_e deleted)) (reminders_t db)\<rparr>,
          if rowCount \<noteq> 0 then rowCount > 0 else False))"

definition DatabaseStorage_getEventReminders :: "Database \<Rightarrow> string \<Rightarrow> Reminder list" where
  "DatabaseStorage_getEventReminders db eventId =
     filter (\<lambda>r. eventId_r r = eventId) (reminders_t db)"

definition DatabaseStorage_getEventCountsByCategory :: "Database \<Rightarrow> string \<Rightarrow> (string \<times> int) list" where
  "DatabaseStorage_getEventCountsByCategory db userId =
     (let rows = filter (\<lambda>e. userId_e e = userId) (events_t db)
      in map (\<lambda>c. (c, int (length (filter (\<lambda>e. category_e e = c) rows))))
             (remdups (map category_e rows)))"

subsection \<open>The authentication middleware (\<^verbatim>\<open>server/routes.ts\<close>)\<close>

text \<open>
  \<^verbatim>\<open>String.prototype.replace\<close> with a string pattern replaces the first occurrence of
  the pattern, wherever it stands, and leaves a string without the pattern as it is. (The
  replacement here is the empty string, so no \<^verbatim>\<open>$\<close> pattern of the replacement is
  involved.)
\<close>

fun String_replace :: "string \<Rightarrow> string \<Rightarrow> string \<Rightarrow> string" where
  "String_replace [] pat rep = (if pat = [] then rep else [])"
| "String_replace (c # cs) pat rep =
     (if prefix pat (c # cs) then rep @ drop (length pat) (c # cs)
      else c # String_replace cs pat rep)"

text \<open>
  The middleware either answers with status 401 and a message, or stores the session's
  user id in the request and calls \<^verbatim>\<open>next()\<close>. \<^verbatim>\<open>storage\<close> is whichever implementation
  was chosen at start-up, so its \<^verbatim>\<open>getSession\<close> (with the store and the clock it reads)
  is an argument. \<^verbatim>\<open>req.headers.authorization\<close> is a string or \<^verbatim>\<open>undefined\<close>;
  \<^verbatim>\<open>!sessionToken\<close> holds of \<^verbatim>\<open>undefined\<close> and of the empty string.
\<close>

datatype AuthResult = Status401 string | Next string

definition sessionToken_of :: "string option \<Rightarrow> string option" where
  "sessionToken_of authorization =
     (case authorization of None \<Rightarrow> None
      | Some h \<Rightarrow> Some (String_replace h ''Bearer '' []))"

definition authenticateUser :: "(string \<Rightarrow> UserSession option) \<Rightarrow> string option \<Rightarrow> AuthResult" where
  "authenticateUser storage_getSession authorization =
     (case sessionToken_of authorization of
        None \<Rightarrow> Status401 ''Authentication required''
      | Some sessionToken \<Rightarrow>
          if sessionToken = [] then Status401 ''Authentication required''
          else (case storage_getSession sessionToken of
                  None \<Rightarrow> Status401 ''Invalid or expired session''
                | Some session \<Rightarrow> Next (userId_s session)))"

fun is_401 :: "AuthResult \<Rightarrow> bool" where
  "is_401 (Status401 _) = True"
| "is_401 (Next _) = False"

subsection \<open>Notions the properties are stated with\<close>

text \<open>
  The two stores hold the same sessions: the rows of \<^verbatim>\<open>user_sessions\<close> (whose
  \<^verbatim>\<open>session_token\<close> is unique) are the values of the \<^verbatim>\<open>sessions\<close> map, each under its
  own token, which is how \<open>MemStorage_createSession\<close> files them.
\<close>

definition same_sessions :: "MemStorage \<Rightarrow> Database \<Rightarrow> bool" where
  "same_sessions s db \<longleftrightarrow>
     wf_Map (sessions s) \<and> distinct (map sessionToken_s (userSessions_t db)) \<and>
     set (sessions s) = (\<lambda>r. (sessionToken_s r, r)) ` set (userSessions_t db)"

text \<open>
  The round trip as the specification words it: the row equals the input on every field
  the input provided, a missing nullable field is \<^verbatim>\<open>null\<close>, a missing \<^verbatim>\<open>category\<close> is
  \<^verbatim>\<open>personal\<close>, a missing \<^verbatim>\<open>isRecurring\<close> is \<^verbatim>\<open>false\<close>.
\<close>

fun provided_or :: "'a optional \<Rightarrow> 'a \<Rightarrow> 'a" where
  "provided_or Absent d = d"
| "provided_or (Present v) d = v"

definition roundtrip_spec :: "InsertEvent \<Rightarrow> Event \<Rightarrow> bool" where
  "roundtrip_spec insertEvent row \<longleftrightarrow>
     userId_e row = userId_i insertEvent \<and>
     title_e row = title_i insertEvent \<and>
     description_e row = provided_or (description_i insertEvent) None \<and>
     startDate_e row = startDate_i insertEvent \<and>
     endDate_e row = endDate_i insertEvent \<and>
     category_e row = provided_or (category_i insertEvent) ''personal'' \<and>
     isRecurring_e row = provided_or (isRecurring_i insertEvent) (Some False) \<and>
     recurringPattern_e row = provided_or (recurringPattern_i insertEvent) None \<and>
     recurringEndDate_e row = recurringEndDate_i insertEvent \<and>
     encryptedData_e row = provided_or (encryptedData_i insertEvent) None"

text \<open>
  The inputs on which \<^verbatim>\<open>||\<close> changes nothing: no provided string is empty and
  \<^verbatim>\<open>isRecurring\<close>, when provided, is not \<^verbatim>\<open>null\<close>.
\<close>

definition no_falsy_provided :: "InsertEvent \<Rightarrow> bool" where
  "no_falsy_provided insertEvent \<longleftrightarrow>
     description_i insertEvent \<noteq> Present (Some []) \<and>
     category_i insertEvent \<noteq> Present [] \<and>
     isRecurring_i insertEvent \<noteq> Present None \<and>
     recurringPattern_i insertEvent \<noteq> Present (Some []) \<and>
     encryptedData_i insertEvent \<noteq> Present (Some [])"

text \<open>The categories the comment on \<^verbatim>\<open>events.category\<close> in \<^verbatim>\<open>shared/schema.ts\<close> lists.\<close>

definition categories :: "string list" where
  "categories = [''work'', ''personal'', ''health'', ''finance'']"

subsection \<open>Concrete stores used to exercise the operations\<close>

definition session_a :: UserSession where
  "session_a = \<lparr>id_s = ''s1'', userId_s = ''u1'', sessionToken_s = ''tokA'',
                 expiresAt_s = 100, createdAt_s = 0\<rparr>"

definition mem_a :: MemStorage where
  "mem_a = fst (MemStorage_createSession MemStorage_new
             \<lparr>userId_is = ''u1'', sessionToken_is = ''tokA'', expiresAt_is = 100\<rparr> ''s1'' 0)"

definition db_a :: Database where
  "db_a = \<lparr>users_t = [], events_t = [], reminders_t = [], userSessions_t = [session_a]\<rparr>"

definition insert_a :: InsertEvent where
  "insert_a = \<lparr>userId_i = ''u1'', title_i = ''Standup'', description_i = Absent,
                startDate_i = 1000, endDate_i = None, category_i = Present ''work'',
                isRecurring_i = Absent, recurringPattern_i = Absent,
                recurringEndDate_i = None, encryptedData_i = Absent\<rparr>"

definition event_a :: Event where
  "event_a = \<lparr>id_e = ''e1'', userId_e = ''u1'', title_e = ''Standup'', description_e = None,
               startDate_e = 1000, endDate_e = None, category_e = ''work'',
               isRecurring_e = Some False, recurringPattern_e = None,
               recurringEndDate_e = None, encryptedData_e = None,
               createdAt_e = 5, updatedAt_e = 5\<rparr>"

definition mem_b :: MemStorage where
  "mem_b = fst (MemStorage_createEvent MemStorage_new insert_a ''e1'' 5 5)"

definition reminder_a :: Reminder where
  "reminder_a = \<lparr>id_r = ''r1'', eventId_r = ''e1'', minutesBefore_r = 15,
                  isTriggered_r = Some False, createdAt_r = 6\<rparr>"

definition mem_c :: MemStorage where
  "mem_c = fst (MemStorage_createReminder mem_b
             \<lparr>eventId_ir = ''e1'', minutesBefore_ir = 15\<rparr> ''r1'' 6)"

definition updates_a :: PartialInsertEvent where
  "updates_a = \<lparr>title_p = Present ''Retro'', description_p = Present None, startDate_p = Absent,
                 endDate_p = Absent, category_p = Absent, isRecurring_p = Absent,
                 recurringPattern_p = Absent, recurringEndDate_p = Absent,
                 encryptedData_p = Absent\<rparr>"

definition db_b :: Database where
  "db_b = \<lparr>users_t = [], events_t = [event_a], reminders_t = [reminder_a], userSessions_t = []\<rparr>"

definition insert_blank :: InsertEvent where
  "insert_blank = insert_a\<lparr>description_i := Present (Some [])\<rparr>"

definition insert_holiday :: InsertEvent where
  "insert_holiday = insert_a\<lparr>category_i := Present ''holiday''\<rparr>"

definition updates_holiday :: PartialInsertEvent where
  "updates_holiday = updates_a\<lparr>category_p := Present ''holiday''\<rparr>"

section \<open>Properties\<close>

subsection \<open>The \<^verbatim>\<open>Map\<close> operations keep keys unique\<close>

lemma wf_Map_empty: "wf_Map []"
  by (simp add: wf_Map_def)

lemma wf_Map_set: "wf_Map m \<Longrightarrow> wf_Map (Map_set m k v)"
  by (simp add: wf_Map_def Map_set_def distinct_update)

lemma wf_Map_delete: "wf_Map m \<Longrightarrow> wf_Map (fst (Map_delete m k))"
  by (simp add: wf_Map_def Map_delete_def distinct_delete)

lemma Map_get_set: "Map_get (Map_set m k v) k' = (if k' = k then Some v else Map_get m k')"
  by (simp add: Map_get_def Map_set_def update_conv')

lemma Map_get_delete: "Map_get (fst (Map_delete m k)) k' = (if k' = k then None else Map_get m k')"
  by (simp add: Map_get_def Map_delete_def delete_conv')

lemma Map_delete_absent: "Map_get m k = None \<Longrightarrow> fst (Map_delete m k) = m"
  by (simp add: Map_get_def Map_delete_def map_of_eq_None_iff)

text \<open>Every store built from the empty one by the methods has unique keys.\<close>

lemma wf_MemStorage_new: "wf_MemStorage MemStorage_new"
  by (simp add: wf_MemStorage_def MemStorage_new_def wf_Map_def)

lemma wf_MemStorage_kept:
  assumes "wf_MemStorage s"
  shows "wf_MemStorage (fst (MemStorage_createSession s insertSession uuid now))"
    and "wf_MemStorage (MemStorage_deleteSession s t)"
    and "wf_MemStorage (fst (MemStorage_createEvent s insertEvent uuid now1 now2))"
    and "wf_MemStorage (fst (MemStorage_updateEvent s i u upd now))"
    and "wf_MemStorage (fst (MemStorage_deleteEvent s i u))"
    and "wf_MemStorage (fst (MemStorage_createReminder s insertReminder uuid now))"
    and "wf_MemStorage (fst (MemStorage_deleteReminder s i))"
proof -
  have d: "wf_Map (fst (Map_delete m k))" if "wf_Map m" for m :: "(string \<times> 'v) list" and k
    using that by (rule wf_Map_delete)
  show "wf_MemStorage (fst (MemStorage_createSession s insertSession uuid now))"
    using assms by (simp add: wf_MemStorage_def MemStorage_createSession_def Let_def wf_Map_set)
  show "wf_MemStorage (MemStorage_deleteSession s t)"
    using assms by (simp add: wf_MemStorage_def MemStorage_deleteSession_def wf_Map_delete)
  show "wf_MemStorage (fst (MemStorage_createEvent s insertEvent uuid now1 now2))"
    using assms by (simp add: wf_MemStorage_def MemStorage_createEvent_def Let_def wf_Map_set)
  show "wf_MemStorage (fst (MemStorage_updateEvent s i u upd now))"
    using assms
    by (simp add: wf_MemStorage_def MemStorage_updateEvent_def Let_def wf_Map_set
        split: option.splits)
  show "wf_MemStorage (fst (MemStorage_deleteEvent s i u))"
    using assms d [of "events s" i]
    by (simp add: wf_MemStorage_def MemStorage_deleteEvent_def Let_def split_beta
        split: option.splits)
  show "wf_MemStorage (fst (MemStorage_createReminder s insertReminder uuid now))"
    using assms by (simp add: wf_MemStorage_def MemStorage_createReminder_def Let_def wf_Map_set)
  show "wf_MemStorage (fst (MemStorage_deleteReminder s i))"
    using assms d [of "reminders s" i]
    by (simp add: wf_MemStorage_def MemStorage_deleteReminder_def Let_def split_beta)
qed

subsection \<open>Sessions\<close>

lemma mem_a_sessions: "sessions mem_a = [(''tokA'', session_a)]"
  by (simp add: mem_a_def MemStorage_createSession_def MemStorage_new_def Map_set_def session_a_def Let_def)

lemma first_row_filter_Some: "first_row (filter P rows) = Some x \<Longrightarrow> P x \<and> x \<in> set rows"
proof (induction rows)
  case Nil
  then show ?case by (simp add: first_row_def)
next
  case (Cons r rows)
  then show ?case by (cases "P r") (auto simp: first_row_def)
qed

lemma unique_row_hit:
  assumes "distinct (map tok rows)" and "x \<in> set rows"
  shows "first_row (filter (\<lambda>r. tok r = tok x \<and> P r) rows) = (if P x then Some x else None)"
  using assms
proof (induction rows)
  case Nil
  then show ?case by simp
next
  case (Cons r rows)
  show ?case
  proof (cases "r = x")
    case True
    then have "filter (\<lambda>r. tok r = tok x \<and> P r) rows = []"
      using Cons.prems(1) by (auto simp: filter_empty_conv image_iff)
    with True show ?thesis by (simp add: first_row_def)
  next
    case False
    then have "tok r \<noteq> tok x" and "x \<in> set rows"
      using Cons.prems by auto
    then show ?thesis
      using Cons.IH Cons.prems(1) by simp
  qed
qed

lemma unique_row_miss:
  assumes "\<forall>x \<in> set rows. tok x \<noteq> t"
  shows "first_row (filter (\<lambda>r. tok r = t \<and> P r) rows) = None"
proof -
  have "filter (\<lambda>r. tok r = t \<and> P r) rows = []"
    using assms by (auto simp: filter_empty_conv)
  then show ?thesis by (simp add: first_row_def)
qed

text \<open>
  C2, session lifecycle. In both stores: a session whose \<open>expiresAt\<close> lies strictly before
  the time of the check is not returned by \<open>getSession\<close>, under any token, and
  \<open>getSession\<close> with the token it is stored under returns nothing; after
  \<open>deleteSession t\<close>, \<open>getSession t\<close> returns nothing at any later check; and
  \<open>deleteSession\<close> of a token that is not stored leaves the store as it was.
\<close>

theorem session_lifecycle:
  "(expiresAt_s x < now \<longrightarrow>
      MemStorage_getSession s t now \<noteq> Some x \<and> DatabaseStorage_getSession db t now \<noteq> Some x)
   \<and> (Map_get (sessions s) t = Some x \<and> expiresAt_s x < now \<longrightarrow>
        MemStorage_getSession s t now = None)
   \<and> (distinct (map sessionToken_s (userSessions_t db)) \<and> x \<in> set (userSessions_t db) \<and>
        expiresAt_s x < now \<longrightarrow>
        DatabaseStorage_getSession db (sessionToken_s x) now = None)
   \<and> MemStorage_getSession (MemStorage_deleteSession s t') t' now = None
   \<and> DatabaseStorage_getSession (DatabaseStorage_deleteSession db t') t' now = None
   \<and> (Map_get (sessions s) t'' = None \<longrightarrow> MemStorage_deleteSession s t'' = s)
   \<and> (t'' \<notin> sessionToken_s ` set (userSessions_t db) \<longrightarrow> DatabaseStorage_deleteSession db t'' = db)"
proof -
  have expired_mem: "MemStorage_getSession s t now \<noteq> Some x" if "expiresAt_s x < now"
    using that by (auto simp: MemStorage_getSession_def split: option.splits)
  have expired_db: "DatabaseStorage_getSession db t now \<noteq> Some x" if "expiresAt_s x < now"
    using that first_row_filter_Some [of _ "userSessions_t db" x]
    by (fastforce simp: DatabaseStorage_getSession_def)
  have stored_mem: "MemStorage_getSession s t now = None"
    if "Map_get (sessions s) t = Some x" "expiresAt_s x < now"
    using that by (simp add: MemStorage_getSession_def)
  have stored_db: "DatabaseStorage_getSession db (sessionToken_s x) now = None"
    if "distinct (map sessionToken_s (userSessions_t db))" "x \<in> set (userSessions_t db)"
      "expiresAt_s x < now"
    using unique_row_hit [OF that(1,2), of "\<lambda>r. expiresAt_s r \<ge> now"] that(3)
    by (simp add: DatabaseStorage_getSession_def)
  have deleted_mem: "MemStorage_getSession (MemStorage_deleteSession s t') t' now = None"
    by (simp add: MemStorage_getSession_def MemStorage_deleteSession_def Map_get_delete)
  have deleted_db: "DatabaseStorage_getSession (DatabaseStorage_deleteSession db t') t' now = None"
    by (simp add: DatabaseStorage_getSession_def DatabaseStorage_deleteSession_def first_row_def)
  have absent_mem: "MemStorage_deleteSession s t'' = s" if "Map_get (sessions s) t'' = None"
    using that by (simp add: MemStorage_deleteSession_def Map_delete_absent)
  have "filter (\<lambda>r. sessionToken_s r \<noteq> t'') (userSessions_t db) = userSessions_t db"
    if "t'' \<notin> sessionToken_s ` set (userSessions_t db)"
    using that by (auto intro: filter_True)
  then have absent_db: "DatabaseStorage_deleteSession db t'' = db"
    if "t'' \<notin> sessionToken_s ` set (userSessions_t db)"
    using that by (simp add: DatabaseStorage_deleteSession_def)
  show ?thesis
    using expired_mem expired_db stored_mem stored_db deleted_mem deleted_db absent_mem absent_db
    by blast
qed

theorem session_lifecycle_witness:
  "expiresAt_s session_a < 101
   \<and> Map_get (sessions mem_a) ''tokA'' = Some session_a
   \<and> distinct (map sessionToken_s (userSessions_t db_a)) \<and> session_a \<in> set (userSessions_t db_a)
   \<and> MemStorage_getSession mem_a ''tokA'' 101 = None
   \<and> DatabaseStorage_getSession db_a (sessionToken_s session_a) 101 = None
   \<and> MemStorage_getSession mem_a ''tokA'' 50 = Some session_a
   \<and> MemStorage_getSession (MemStorage_deleteSession mem_a ''tokA'') ''tokA'' 50 = None
   \<and> DatabaseStorage_getSession (DatabaseStorage_deleteSession db_a ''tokA'') ''tokA'' 50 = None
   \<and> Map_get (sessions mem_a) ''tokB'' = None
   \<and> MemStorage_deleteSession mem_a ''tokB'' = mem_a
   \<and> ''tokB'' \<notin> sessionToken_s ` set (userSessions_t db_a)
   \<and> DatabaseStorage_deleteSession db_a ''tokB'' = db_a"
proof -
  have 1: "expiresAt_s session_a < 101"
    by (simp add: session_a_def)
  have 2: "Map_get (sessions mem_a) ''tokB'' = None"
    by (simp add: mem_a_sessions Map_get_def)
  have 3: "''tokB'' \<notin> sessionToken_s ` set (userSessions_t db_a)"
    by (simp add: db_a_def session_a_def)
  have 4: "MemStorage_getSession mem_a ''tokA'' 50 = Some session_a"
    by (simp add: MemStorage_getSession_def mem_a_sessions Map_get_def session_a_def)
  have 5: "Map_get (sessions mem_a) ''tokA'' = Some session_a"
    by (simp add: mem_a_sessions Map_get_def)
  have 6: "distinct (map sessionToken_s (userSessions_t db_a))" "session_a \<in> set (userSessions_t db_a)"
    by (simp_all add: db_a_def)
  show ?thesis
    using 1 2 3 4 5 6
      session_lifecycle [of session_a 101 mem_a "''tokA''" db_a "''tokA''" "''tokB''"]
      session_lifecycle [of session_a 50 mem_a "''tokA''" db_a "''tokA''" "''tokB''"]
    by blast
qed

subsection \<open>Ownership\<close>

lemma mem_b_created:
  "MemStorage_createEvent MemStorage_new insert_a ''e1'' 5 5 =
     (MemStorage_new\<lparr>events := [(''e1'', event_a)]\<rparr>, event_a)"
  by (simp add: MemStorage_createEvent_def MemStorage_new_def insert_a_def event_a_def
      Map_set_def Let_def)

lemma mem_b_events: "events mem_b = [(''e1'', event_a)]"
  by (simp add: mem_b_def mem_b_created)

lemma created_is_stored:
  "MemStorage_createEvent s0 ins uuid n1 n2 = (s1, e1) \<Longrightarrow>
     Map_get (events s1) (id_e e1) = Some e1 \<and> userId_e e1 = userId_i ins"
  by (auto simp: MemStorage_createEvent_def Let_def Map_get_set)

text \<open>
  C1, ownership scoping. \<open>MemStorage_createEvent\<close> files the new event under its id with
  the owner given. For an event \<open>e\<close> stored under \<open>i\<close> with owner \<open>U1\<close> and any other user
  \<open>U2\<close>: \<open>e\<close> is not in \<open>getEvents U2\<close> (with or without bounds), \<open>getEvent i U2\<close> and
  \<open>updateEvent i U2\<close> return nothing, \<open>deleteEvent i U2\<close> returns false, and neither
  changes the store.
\<close>

theorem ownership_scoping:
  "(MemStorage_createEvent s0 ins uuid n1 n2 = (s1, e1) \<longrightarrow>
      Map_get (events s1) (id_e e1) = Some e1 \<and> userId_e e1 = userId_i ins)
   \<and> (Map_get (events s) i = Some e \<and> userId_e e = U1 \<and> U1 \<noteq> U2 \<longrightarrow>
        e \<notin> set (MemStorage_getEvents s U2 sd ed) \<and>
        MemStorage_getEvent s i U2 = None \<and>
        MemStorage_updateEvent s i U2 upd now = (s, None) \<and>
        MemStorage_deleteEvent s i U2 = (s, False))"
proof -
  have "e \<notin> set (MemStorage_getEvents s U2 sd ed)" if "userId_e e \<noteq> U2"
    using that by (auto simp: MemStorage_getEvents_def Let_def split: option.splits)
  moreover have "MemStorage_getEvent s i U2 = None"
    if "Map_get (events s) i = Some e" "userId_e e \<noteq> U2"
    using that by (simp add: MemStorage_getEvent_def)
  moreover have "MemStorage_updateEvent s i U2 upd now = (s, None)"
    if "Map_get (events s) i = Some e" "userId_e e \<noteq> U2"
    using that by (simp add: MemStorage_updateEvent_def)
  moreover have "MemStorage_deleteEvent s i U2 = (s, False)"
    if "Map_get (events s) i = Some e" "userId_e e \<noteq> U2"
    using that by (simp add: MemStorage_deleteEvent_def)
  ultimately show ?thesis
    using created_is_stored [of s0 ins uuid n1 n2 s1 e1] by blast
qed

theorem ownership_scoping_witness:
  "MemStorage_createEvent MemStorage_new insert_a ''e1'' 5 5 = (mem_b, event_a)
   \<and> Map_get (events mem_b) ''e1'' = Some event_a \<and> userId_e event_a = ''u1'' \<and> ''u1'' \<noteq> ''u2''
   \<and> event_a \<notin> set (MemStorage_getEvents mem_b ''u2'' None None)
   \<and> MemStorage_getEvent mem_b ''e1'' ''u2'' = None
   \<and> MemStorage_updateEvent mem_b ''e1'' ''u2'' updates_a 9 = (mem_b, None)
   \<and> MemStorage_deleteEvent mem_b ''e1'' ''u2'' = (mem_b, False)
   \<and> MemStorage_getEvent mem_b ''e1'' ''u1'' = Some event_a"
proof -
  have 1: "MemStorage_createEvent MemStorage_new insert_a ''e1'' 5 5 = (mem_b, event_a)"
    by (simp add: mem_b_def mem_b_created)
  have 2: "Map_get (events mem_b) ''e1'' = Some event_a"
    by (simp add: mem_b_events Map_get_def)
  have 3: "userId_e event_a = ''u1''" "''u1'' \<noteq> ''u2''"
    by (simp_all add: event_a_def)
  have 4: "MemStorage_getEvent mem_b ''e1'' ''u1'' = Some event_a"
    by (simp add: MemStorage_getEvent_def 2 3)
  show ?thesis
    using 1 2 3 4
      ownership_scoping [of MemStorage_new insert_a "''e1''" 5 5 mem_b event_a mem_b "''e1''"
        event_a "''u1''" "''u2''" None None updates_a 9]
    by blast
qed

subsection \<open>Listing events\<close>

text \<open>
  C3, the filter contract of \<open>getEvents\<close>, for both stores. With both bounds the result
  holds exactly the stored events of the user whose \<open>startDate\<close> lies in the closed
  interval (as a multiset of rows); with the lower or the upper bound missing it holds
  all the stored events of the user; in every case it is sorted by ascending \<open>startDate\<close>.
\<close>

theorem getEvents_filter_contract:
  "mset (MemStorage_getEvents s u (Some a) (Some b)) =
     mset (filter (\<lambda>e. userId_e e = u \<and> a \<le> startDate_e e \<and> startDate_e e \<le> b)
                  (Map_values (events s)))
   \<and> mset (MemStorage_getEvents s u None ed) =
       mset (filter (\<lambda>e. userId_e e = u) (Map_values (events s)))
   \<and> mset (MemStorage_getEvents s u sd None) =
       mset (filter (\<lambda>e. userId_e e = u) (Map_values (events s)))
   \<and> sorted (map startDate_e (MemStorage_getEvents s u sd ed))
   \<and> mset (DatabaseStorage_getEvents db u (Some a) (Some b)) =
       mset (filter (\<lambda>e. userId_e e = u \<and> a \<le> startDate_e e \<and> startDate_e e \<le> b)
                    (events_t db))
   \<and> mset (DatabaseStorage_getEvents db u None ed) =
       mset (filter (\<lambda>e. userId_e e = u) (events_t db))
   \<and> mset (DatabaseStorage_getEvents db u sd None) =
       mset (filter (\<lambda>e. userId_e e = u) (events_t db))
   \<and> sorted (map startDate_e (DatabaseStorage_getEvents db u sd ed))"
proof (intro conjI)
  show "mset (MemStorage_getEvents s u (Some a) (Some b)) =
     mset (filter (\<lambda>e. userId_e e = u \<and> a \<le> startDate_e e \<and> startDate_e e \<le> b)
                  (Map_values (events s)))"
    by (simp add: MemStorage_getEvents_def Let_def conj_commute conj_left_commute)
  show "mset (MemStorage_getEvents s u None ed) =
       mset (filter (\<lambda>e. userId_e e = u) (Map_values (events s)))"
    by (simp add: MemStorage_getEvents_def Let_def)
  show "mset (MemStorage_getEvents s u sd None) =
       mset (filter (\<lambda>e. userId_e e = u) (Map_values (events s)))"
    by (simp add: MemStorage_getEvents_def Let_def split: option.splits)
  show "sorted (map startDate_e (MemStorage_getEvents s u sd ed))"
    by (simp add: MemStorage_getEvents_def Let_def)
  show "mset (DatabaseStorage_getEvents db u (Some a) (Some b)) =
       mset (filter (\<lambda>e. userId_e e = u \<and> a \<le> startDate_e e \<and> startDate_e e \<le> b)
                    (events_t db))"
    by (simp add: DatabaseStorage_getEvents_def Let_def)
  show "mset (DatabaseStorage_getEvents db u None ed) =
       mset (filter (\<lambda>e. userId_e e = u) (events_t db))"
    by (simp add: DatabaseStorage_getEvents_def Let_def)
  show "mset (DatabaseStorage_getEvents db u sd None) =
       mset (filter (\<lambda>e. userId_e e = u) (events_t db))"
    by (simp add: DatabaseStorage_getEvents_def Let_def split: option.splits)
  show "sorted (map startDate_e (DatabaseStorage_getEvents db u sd ed))"
    by (simp add: DatabaseStorage_getEvents_def Let_def)
qed

subsection \<open>Session expiry at the boundary\<close>

lemma same_sessions_get:
  assumes "same_sessions s db"
  shows "Map_get (sessions s) t = Some x \<longleftrightarrow> x \<in> set (userSessions_t db) \<and> sessionToken_s x = t"
  using assms by (auto simp: same_sessions_def wf_Map_def Map_get_def)

lemma DatabaseStorage_getSession_by_map:
  assumes "same_sessions s db"
  shows "DatabaseStorage_getSession db t now =
           (case Map_get (sessions s) t of None \<Rightarrow> None
            | Some x \<Rightarrow> if expiresAt_s x \<ge> now then Some x else None)"
proof (cases "Map_get (sessions s) t")
  case None
  then have "\<forall>x \<in> set (userSessions_t db). sessionToken_s x \<noteq> t"
    using same_sessions_get [OF assms, of t] by auto
  then show ?thesis
    using None unique_row_miss [of "userSessions_t db" sessionToken_s t]
    by (simp add: DatabaseStorage_getSession_def)
next
  case (Some x)
  then have x: "x \<in> set (userSessions_t db)" "sessionToken_s x = t"
    using same_sessions_get [OF assms, of t x] by auto
  have "distinct (map sessionToken_s (userSessions_t db))"
    using assms by (simp add: same_sessions_def)
  from unique_row_hit [OF this x(1), of "\<lambda>r. expiresAt_s r \<ge> now"] x(2) Some
  show ?thesis
    by (simp add: DatabaseStorage_getSession_def)
qed

lemma same_sessions_a: "same_sessions mem_a db_a"
  by (simp add: same_sessions_def mem_a_sessions db_a_def wf_Map_def session_a_def)

text \<open>
  C4, the expiry boundary. Let the two stores hold the same sessions. For a stored session
  whose \<open>expiresAt\<close> equals the time of the check, \<open>DatabaseStorage_getSession\<close> returns
  it and \<open>MemStorage_getSession\<close> returns nothing; whenever the token is unknown or its
  session expires at another time, the two return the same.
\<close>

theorem expiry_boundary:
  assumes "same_sessions s db"
  shows "(Map_get (sessions s) t = Some x \<and> expiresAt_s x = now \<longrightarrow>
            DatabaseStorage_getSession db t now = Some x \<and> MemStorage_getSession s t now = None)
       \<and> ((\<forall>x. Map_get (sessions s) t = Some x \<longrightarrow> expiresAt_s x \<noteq> now) \<longrightarrow>
            DatabaseStorage_getSession db t now = MemStorage_getSession s t now)"
  using DatabaseStorage_getSession_by_map [OF assms, of t now]
  by (auto simp: MemStorage_getSession_def split: option.splits)

theorem expiry_boundary_witness:
  "same_sessions mem_a db_a
   \<and> Map_get (sessions mem_a) ''tokA'' = Some session_a \<and> expiresAt_s session_a = 100
   \<and> DatabaseStorage_getSession db_a ''tokA'' 100 = Some session_a
   \<and> MemStorage_getSession mem_a ''tokA'' 100 = None
   \<and> expiresAt_s session_a \<noteq> 99
   \<and> DatabaseStorage_getSession db_a ''tokA'' 99 = Some session_a
   \<and> MemStorage_getSession mem_a ''tokA'' 99 = Some session_a"
proof -
  have 1: "Map_get (sessions mem_a) ''tokA'' = Some session_a"
    by (simp add: mem_a_sessions Map_get_def)
  have 2: "expiresAt_s session_a = 100"
    by (simp add: session_a_def)
  have 3: "\<forall>x. Map_get (sessions mem_a) ''tokA'' = Some x \<longrightarrow> expiresAt_s x \<noteq> 99"
    by (simp add: 1 2)
  have 4: "MemStorage_getSession mem_a ''tokA'' 99 = Some session_a"
    by (simp add: MemStorage_getSession_def 1 2)
  show ?thesis
    using same_sessions_a 1 2 3 4
      expiry_boundary [OF same_sessions_a, of "''tokA''" session_a 100]
      expiry_boundary [OF same_sessions_a, of "''tokA''" session_a 99]
    by simp
qed

subsection \<open>Counting by category\<close>

lemma sum_update_count:
  "0 \<notin> snd ` set m \<Longrightarrow>
     sum_list (map snd (AList.update k (or_number (map_of m k) 0 + 1) m)) = sum_list (map snd m) + 1"
  by (induction m) auto

lemma values_update: "(a, b) \<in> set (AList.update k v m) \<Longrightarrow> b = v \<or> (a, b) \<in> set m"
  by (induction m) (auto split: if_splits)

lemma or_number_nonneg: "\<forall>v \<in> snd ` set m. 0 < v \<Longrightarrow> 0 \<le> or_number (map_of m k) 0"
  by (cases "map_of m k") (auto dest!: map_of_SomeD intro: less_imp_le simp: image_iff; force)+

lemma count_event_pos:
  assumes "\<forall>v \<in> snd ` set m. 0 < v"
  shows "\<forall>v \<in> snd ` set (count_event m e). 0 < v"
proof -
  have "0 < or_number (map_of m (category_e e)) 0 + 1"
    using or_number_nonneg [OF assms] by (simp add: add_nonneg_pos)
  then show ?thesis
    using assms
    by (auto simp: count_event_def Map_set_def Map_get_def dest!: values_update)
qed

lemma count_event_sum:
  assumes "\<forall>v \<in> snd ` set m. 0 < v"
  shows "sum_list (map snd (count_event m e)) = sum_list (map snd m) + 1"
proof -
  have "0 \<notin> snd ` set m" using assms by auto
  then show ?thesis
    by (simp add: count_event_def Map_set_def Map_get_def sum_update_count)
qed

lemma count_event_distinct: "distinct (map fst m) \<Longrightarrow> distinct (map fst (count_event m e))"
  by (simp add: count_event_def Map_set_def distinct_update)

lemma foldl_count_event:
  assumes "distinct (map fst m)" and "\<forall>v \<in> snd ` set m. 0 < v"
  shows "distinct (map fst (foldl count_event m xs))
       \<and> (\<forall>v \<in> snd ` set (foldl count_event m xs). 0 < v)
       \<and> sum_list (map snd (foldl count_event m xs)) = sum_list (map snd m) + int (length xs)"
  using assms
proof (induction xs arbitrary: m)
  case Nil
  then show ?case by simp
next
  case (Cons x xs)
  have d: "distinct (map fst (count_event m x))"
    using Cons.prems(1) by (rule count_event_distinct)
  have p: "\<forall>v \<in> snd ` set (count_event m x). 0 < v"
    using Cons.prems(2) by (rule count_event_pos)
  show ?case
    using Cons.IH [OF d p] count_event_sum [OF Cons.prems(2), of x] by simp
qed

lemma count_map_filter: "count_list (map f xs) c = length (filter (\<lambda>e. f e = c) xs)"
  by (induction xs) auto

lemma sum_counts_remdups:
  "(\<Sum>c\<leftarrow>remdups (map f xs). int (length (filter (\<lambda>e. f e = c) xs))) = int (length xs)"
proof -
  have "(\<Sum>c\<leftarrow>remdups (map f xs). int (length (filter (\<lambda>e. f e = c) xs)))
      = (\<Sum>c\<in>set (map f xs). int (count_list (map f xs) c))"
    by (simp add: sum_list_distinct_conv_sum_set count_map_filter)
  also have "\<dots> = int (\<Sum>c\<in>set (map f xs). count_list (map f xs) c)"
    by simp
  also have "\<dots> = int (length (map f xs))"
    by (simp only: sum_count_set [OF subset_refl finite_set])
  finally show ?thesis by simp
qed

text \<open>
  C5, the aggregation of \<open>getEventCountsByCategory\<close>, for both stores: the counts add up
  to the number of stored events of the user, no category occurs in two entries, and no
  entry has the count zero.
\<close>

theorem countByCategory_aggregation:
  "sum_list (map snd (MemStorage_getEventCountsByCategory s u)) =
     int (length (filter (\<lambda>e. userId_e e = u) (Map_values (events s))))
   \<and> distinct (map fst (MemStorage_getEventCountsByCategory s u))
   \<and> 0 \<notin> snd ` set (MemStorage_getEventCountsByCategory s u)
   \<and> sum_list (map snd (DatabaseStorage_getEventCountsByCategory db u)) =
       int (length (filter (\<lambda>e. userId_e e = u) (events_t db)))
   \<and> distinct (map fst (DatabaseStorage_getEventCountsByCategory db u))
   \<and> 0 \<notin> snd ` set (DatabaseStorage_getEventCountsByCategory db u)"
proof (intro conjI)
  let ?own = "filter (\<lambda>e. userId_e e = u) (Map_values (events s))"
  have mem: "distinct (map fst (foldl count_event [] ?own))
       \<and> (\<forall>v \<in> snd ` set (foldl count_event [] ?own). 0 < v)
       \<and> sum_list (map snd (foldl count_event [] ?own)) = int (length ?own)"
    using foldl_count_event [of "[]" ?own] by simp
  show "sum_list (map snd (MemStorage_getEventCountsByCategory s u)) = int (length ?own)"
    using mem by (simp add: MemStorage_getEventCountsByCategory_def Let_def Map_entries_def)
  show "distinct (map fst (MemStorage_getEventCountsByCategory s u))"
    using mem by (simp add: MemStorage_getEventCountsByCategory_def Let_def Map_entries_def)
  show "0 \<notin> snd ` set (MemStorage_getEventCountsByCategory s u)"
    using mem by (auto simp: MemStorage_getEventCountsByCategory_def Let_def Map_entries_def)
  show "sum_list (map snd (DatabaseStorage_getEventCountsByCategory db u)) =
     int (length (filter (\<lambda>e. userId_e e = u) (events_t db)))"
    using sum_counts_remdups [of category_e "filter (\<lambda>e. userId_e e = u) (events_t db)"]
    by (simp add: DatabaseStorage_getEventCountsByCategory_def Let_def comp_def)
  show "distinct (map fst (DatabaseStorage_getEventCountsByCategory db u))"
    by (simp add: DatabaseStorage_getEventCountsByCategory_def Let_def comp_def)
  show "0 \<notin> snd ` set (DatabaseStorage_getEventCountsByCategory db u)"
    by (auto simp: DatabaseStorage_getEventCountsByCategory_def Let_def filter_empty_conv)
qed

subsection \<open>Updating an event\<close>

lemma spread_spread: "spread (spread old u) u = spread old u"
  by (cases u) simp_all

lemma spread_updates_twice:
  "spread_updates (spread_updates e upd n1) upd n2 = spread_updates e upd n2"
  by (simp add: spread_updates_def spread_spread)

lemma spread_updates_later:
  "(spread_updates e upd n1)\<lparr>updatedAt_e := n2\<rparr> = spread_updates e upd n2"
  by (simp add: spread_updates_def)

lemma spread_updates_keeps:
  "id_e (spread_updates e upd n) = id_e e" "userId_e (spread_updates e upd n) = userId_e e"
  "createdAt_e (spread_updates e upd n) = createdAt_e e" "updatedAt_e (spread_updates e upd n) = n"
  by (simp_all add: spread_updates_def)

lemma MemStorage_updateEvent_twice:
  "MemStorage_updateEvent (fst (MemStorage_updateEvent s i u upd n1)) i u upd n2 =
     MemStorage_updateEvent s i u upd n2"
proof (cases "Map_get (events s) i")
  case None
  then show ?thesis by (simp add: MemStorage_updateEvent_def)
next
  case (Some e)
  show ?thesis
  proof (cases "userId_e e = u")
    case False
    with Some show ?thesis by (simp add: MemStorage_updateEvent_def)
  next
    case True
    have "Map_set (Map_set (events s) i (spread_updates e upd n1)) i (spread_updates e upd n2) =
        Map_set (events s) i (spread_updates e upd n2)"
      by (simp add: Map_set_def)
    with Some True show ?thesis
      by (simp add: MemStorage_updateEvent_def Let_def Map_get_set spread_updates_twice
          spread_updates_keeps)
  qed
qed

lemma first_row_map_Some: "first_row (map f xs) = Some y \<Longrightarrow> \<exists>x \<in> set xs. y = f x"
  by (cases xs) (auto simp: first_row_def)

lemma DatabaseStorage_updateEvent_twice:
  "DatabaseStorage_updateEvent (fst (DatabaseStorage_updateEvent db i u upd n1)) i u upd n2 =
     DatabaseStorage_updateEvent db i u upd n2"
proof -
  let ?hit = "\<lambda>e. id_e e = i \<and> userId_e e = u"
  let ?g = "\<lambda>e. if ?hit e then spread_updates e upd n1 else e"
  have hit: "?hit (?g e) = ?hit e" for e
    by (simp add: spread_updates_keeps)
  have rows: "map (\<lambda>e. if ?hit e then spread_updates e upd n2 else e) (map ?g (events_t db)) =
      map (\<lambda>e. if ?hit e then spread_updates e upd n2 else e) (events_t db)"
    by (simp add: spread_updates_keeps spread_updates_twice)
  have "(\<lambda>e. ?hit (?g e)) = ?hit"
    by (auto simp: fun_eq_iff spread_updates_keeps)
  then have "filter ?hit (map ?g (events_t db)) = map ?g (filter ?hit (events_t db))"
    by (simp only: filter_map comp_def)
  then have "map (\<lambda>e. spread_updates e upd n2) (filter ?hit (map ?g (events_t db))) =
      map (\<lambda>e. spread_updates e upd n2) (filter ?hit (events_t db))"
    by (simp add: spread_updates_twice)
  with rows show ?thesis
    by (simp add: DatabaseStorage_updateEvent_def Let_def)
qed

text \<open>
  C7, the contract of \<open>updateEvent\<close>. For an event the caller owns, the same partial
  update applied a second time returns and stores the row of the first application with
  only \<open>updatedAt\<close> changed, to the time of the second call, and leaves every other row
  as it is; so \<open>updatedAt\<close> does not go back when the clock does not. In both stores,
  updating twice is updating once at the later time; a call that returns a row has set
  its \<open>updatedAt\<close> to the time of the call and stored it; and a call for an id that is
  absent or owned by someone else returns nothing and changes nothing.
\<close>

theorem updateEvent_contract:
  "(Map_get (events s) i = Some e \<and> userId_e e = u \<and>
      MemStorage_updateEvent s i u upd n1 = (s1, r1) \<and>
      MemStorage_updateEvent s1 i u upd n2 = (s2, r2) \<longrightarrow>
        (\<exists>e1. r1 = Some e1 \<and> Map_get (events s1) i = Some e1 \<and> updatedAt_e e1 = n1 \<and>
              r2 = Some (e1\<lparr>updatedAt_e := n2\<rparr>) \<and>
              s2 = s1\<lparr>events := Map_set (events s1) i (e1\<lparr>updatedAt_e := n2\<rparr>)\<rparr> \<and>
              (n1 \<le> n2 \<longrightarrow> updatedAt_e e1 \<le> updatedAt_e (e1\<lparr>updatedAt_e := n2\<rparr>))))
   \<and> MemStorage_updateEvent (fst (MemStorage_updateEvent s i u upd n1)) i u upd n2 =
       MemStorage_updateEvent s i u upd n2
   \<and> DatabaseStorage_updateEvent (fst (DatabaseStorage_updateEvent db i u upd n1)) i u upd n2 =
       DatabaseStorage_updateEvent db i u upd n2
   \<and> (MemStorage_updateEvent s i u upd n = (s', Some e') \<longrightarrow>
        updatedAt_e e' = n \<and> Map_get (events s') i = Some e')
   \<and> (DatabaseStorage_updateEvent db i u upd n = (db', Some e') \<longrightarrow>
        updatedAt_e e' = n \<and> e' \<in> set (events_t db'))
   \<and> ((\<forall>e. Map_get (events s) i = Some e \<longrightarrow> userId_e e \<noteq> u) \<longrightarrow>
        MemStorage_updateEvent s i u upd n = (s, None))
   \<and> ((\<forall>e \<in> set (events_t db). id_e e = i \<longrightarrow> userId_e e \<noteq> u) \<longrightarrow>
        DatabaseStorage_updateEvent db i u upd n = (db, None))"
proof (intro conjI impI)
  assume a: "Map_get (events s) i = Some e \<and> userId_e e = u \<and>
      MemStorage_updateEvent s i u upd n1 = (s1, r1) \<and>
      MemStorage_updateEvent s1 i u upd n2 = (s2, r2)"
  let ?e1 = "spread_updates e upd n1"
  have s1: "s1 = s\<lparr>events := Map_set (events s) i ?e1\<rparr>" and r1: "r1 = Some ?e1"
    using a by (auto simp: MemStorage_updateEvent_def Let_def)
  have get1: "Map_get (events s1) i = Some ?e1"
    by (simp add: s1 Map_get_set)
  have "MemStorage_updateEvent s1 i u upd n2 =
      (s1\<lparr>events := Map_set (events s1) i (?e1\<lparr>updatedAt_e := n2\<rparr>)\<rparr>, Some (?e1\<lparr>updatedAt_e := n2\<rparr>))"
    using a get1
    by (simp add: MemStorage_updateEvent_def Let_def spread_updates_keeps spread_updates_twice
        spread_updates_later)
  with a have "r2 = Some (?e1\<lparr>updatedAt_e := n2\<rparr>)"
    and "s2 = s1\<lparr>events := Map_set (events s1) i (?e1\<lparr>updatedAt_e := n2\<rparr>)\<rparr>"
    by simp_all
  with r1 get1
  show "\<exists>e1. r1 = Some e1 \<and> Map_get (events s1) i = Some e1 \<and> updatedAt_e e1 = n1 \<and>
              r2 = Some (e1\<lparr>updatedAt_e := n2\<rparr>) \<and>
              s2 = s1\<lparr>events := Map_set (events s1) i (e1\<lparr>updatedAt_e := n2\<rparr>)\<rparr> \<and>
              (n1 \<le> n2 \<longrightarrow> updatedAt_e e1 \<le> updatedAt_e (e1\<lparr>updatedAt_e := n2\<rparr>))"
    by (intro exI [of _ ?e1]) (simp add: spread_updates_keeps)
next
  show "MemStorage_updateEvent (fst (MemStorage_updateEvent s i u upd n1)) i u upd n2 =
       MemStorage_updateEvent s i u upd n2"
    by (rule MemStorage_updateEvent_twice)
next
  show "DatabaseStorage_updateEvent (fst (DatabaseStorage_updateEvent db i u upd n1)) i u upd n2 =
       DatabaseStorage_updateEvent db i u upd n2"
    by (rule DatabaseStorage_updateEvent_twice)
next
  assume "MemStorage_updateEvent s i u upd n = (s', Some e')"
  then show "updatedAt_e e' = n" and "Map_get (events s') i = Some e'"
    by (auto simp: MemStorage_updateEvent_def Let_def Map_get_set spread_updates_keeps
        split: option.splits if_splits)
next
  assume a: "DatabaseStorage_updateEvent db i u upd n = (db', Some e')"
  let ?hit = "\<lambda>e. id_e e = i \<and> userId_e e = u"
  from a have "first_row (map (\<lambda>e. spread_updates e upd n) (filter ?hit (events_t db))) = Some e'"
    and db': "events_t db' = map (\<lambda>e. if ?hit e then spread_updates e upd n else e) (events_t db)"
    by (auto simp: DatabaseStorage_updateEvent_def Let_def)
  then obtain x where x: "x \<in> set (events_t db)" "?hit x" "e' = spread_updates x upd n"
    by (auto dest!: first_row_map_Some)
  show "updatedAt_e e' = n"
    by (simp add: x(3) spread_updates_keeps)
  show "e' \<in> set (events_t db')"
    using x by (force simp: db' image_iff)
next
  assume "\<forall>e. Map_get (events s) i = Some e \<longrightarrow> userId_e e \<noteq> u"
  then show "MemStorage_updateEvent s i u upd n = (s, None)"
    by (simp add: MemStorage_updateEvent_def split: option.splits)
next
  assume a: "\<forall>e \<in> set (events_t db). id_e e = i \<longrightarrow> userId_e e \<noteq> u"
  let ?hit = "\<lambda>e. id_e e = i \<and> userId_e e = u"
  have "filter ?hit (events_t db) = []"
    using a by (auto simp: filter_empty_conv)
  moreover have "map (\<lambda>e. if ?hit e then spread_updates e upd n else e) (events_t db) = events_t db"
    using a by (intro map_idI) auto
  ultimately show "DatabaseStorage_updateEvent db i u upd n = (db, None)"
    by (simp add: DatabaseStorage_updateEvent_def Let_def first_row_def)
qed

theorem updateEvent_contract_witness:
  "Map_get (events mem_b) ''e1'' = Some event_a \<and> userId_e event_a = ''u1'' \<and> (10::int) \<le> 20
   \<and> snd (MemStorage_updateEvent mem_b ''e1'' ''u1'' updates_a 10) =
       Some (spread_updates event_a updates_a 10)
   \<and> snd (MemStorage_updateEvent (fst (MemStorage_updateEvent mem_b ''e1'' ''u1'' updates_a 10))
            ''e1'' ''u1'' updates_a 20) =
       Some ((spread_updates event_a updates_a 10)\<lparr>updatedAt_e := 20\<rparr>)
   \<and> updatedAt_e (spread_updates event_a updates_a 10) = 10
   \<and> DatabaseStorage_updateEvent db_b ''e1'' ''u1'' updates_a 10 =
       (db_b\<lparr>events_t := [spread_updates event_a updates_a 10]\<rparr>,
        Some (spread_updates event_a updates_a 10))
   \<and> spread_updates event_a updates_a 10 \<in>
       set (events_t (db_b\<lparr>events_t := [spread_updates event_a updates_a 10]\<rparr>))
   \<and> userId_e event_a \<noteq> ''u2'' \<and> events_t db_b = [event_a]
   \<and> MemStorage_updateEvent mem_b ''e1'' ''u2'' updates_a 10 = (mem_b, None)
   \<and> DatabaseStorage_updateEvent db_b ''e1'' ''u2'' updates_a 10 = (db_b, None)"
proof -
  let ?once = "MemStorage_updateEvent mem_b ''e1'' ''u1'' updates_a 10"
  let ?twice = "MemStorage_updateEvent (fst ?once) ''e1'' ''u1'' updates_a 20"
  let ?e1 = "spread_updates event_a updates_a 10"
  let ?db1 = "db_b\<lparr>events_t := [?e1]\<rparr>"
  have g: "Map_get (events mem_b) ''e1'' = Some event_a"
    by (simp add: mem_b_events Map_get_def)
  have o: "userId_e event_a = ''u1''" "id_e event_a = ''e1''"
    by (simp_all add: event_a_def)
  have once: "?once = (fst ?once, snd ?once)" and twice: "?twice = (fst ?twice, snd ?twice)"
    by simp_all
  have r1: "snd ?once = Some ?e1"
    by (simp add: MemStorage_updateEvent_def g o Let_def)
  have once': "?once = (fst ?once, Some ?e1)"
    using r1 by (simp add: prod_eq_iff)
  have d1: "DatabaseStorage_updateEvent db_b ''e1'' ''u1'' updates_a 10 = (?db1, Some ?e1)"
    by (simp add: DatabaseStorage_updateEvent_def db_b_def o Let_def first_row_def)
  have n2: "\<forall>e. Map_get (events mem_b) ''e1'' = Some e \<longrightarrow> userId_e e \<noteq> ''u2''"
    by (simp add: g o)
  have d2: "\<forall>e \<in> set (events_t db_b). id_e e = ''e1'' \<longrightarrow> userId_e e \<noteq> ''u2''"
    by (simp add: db_b_def o)
  note owned = updateEvent_contract [where s = mem_b and i = "''e1''" and e = event_a
      and u = "''u1''" and upd = updates_a and ?n1.0 = 10 and ?s1.0 = "fst ?once"
      and ?r1.0 = "snd ?once" and ?n2.0 = 20 and ?s2.0 = "fst ?twice" and ?r2.0 = "snd ?twice"
      and db = db_b and n = 10 and s' = "fst ?once" and e' = ?e1 and db' = ?db1]
  note other = updateEvent_contract [where s = mem_b and i = "''e1''" and u = "''u2''"
      and upd = updates_a and db = db_b and n = 10]
  from owned g o once twice r1
  have r2: "snd ?twice = Some (?e1\<lparr>updatedAt_e := 20\<rparr>)"
    by auto
  from owned once' have u: "updatedAt_e ?e1 = 10"
    by blast
  from owned d1 have m: "?e1 \<in> set (events_t ?db1)"
    by blast
  from other n2 have a1: "MemStorage_updateEvent mem_b ''e1'' ''u2'' updates_a 10 = (mem_b, None)"
    by blast
  from other d2 have a2: "DatabaseStorage_updateEvent db_b ''e1'' ''u2'' updates_a 10 = (db_b, None)"
    by blast
  have le: "(10::int) \<le> 20"
    by simp
  have o2: "userId_e event_a \<noteq> ''u2''" "events_t db_b = [event_a]"
    by (simp_all add: event_a_def db_b_def)
  from g o(1) le r1 r2 u d1 m o2 a1 a2 show ?thesis
    by blast
qed

subsection \<open>The authentication middleware\<close>

lemma String_replace_absent:
  "\<not> sublist pat h \<Longrightarrow> String_replace h pat rep = h"
proof (induction h)
  case Nil
  then show ?case by auto
next
  case (Cons c cs)
  then show ?case by (auto simp: sublist_Cons_right)
qed

lemma String_replace_first:
  assumes "pat \<noteq> []" and "\<forall>j<length p. \<not> prefix pat (drop j (p @ pat @ q))"
  shows "String_replace (p @ pat @ q) pat rep = p @ rep @ q"
  using assms(2)
proof (induction p)
  case Nil
  show ?case
  proof (cases "pat @ q")
    case Nil
    with assms(1) show ?thesis by simp
  next
    case (Cons c cs)
    have "prefix pat (c # cs)" unfolding Cons [symmetric] by simp
    then have "String_replace (c # cs) pat rep = rep @ drop (length pat) (c # cs)"
      by simp
    then show ?thesis unfolding Cons [symmetric] by simp
  qed
next
  case (Cons c p)
  have "\<not> prefix pat ((c # p) @ pat @ q)"
    using Cons.prems by (metis drop0 length_greater_0_conv list.distinct(1))
  moreover have "\<forall>j<length p. \<not> prefix pat (drop j (p @ pat @ q))"
  proof (intro allI impI)
    fix j assume "j < length p"
    then have "Suc j < length (c # p)" by simp
    with Cons.prems have "\<not> prefix pat (drop (Suc j) ((c # p) @ pat @ q))" by blast
    then show "\<not> prefix pat (drop j (p @ pat @ q))" by simp
  qed
  ultimately show ?case using Cons.IH by simp
qed

lemma no_space_no_Bearer: "CHR '' '' \<notin> set t \<Longrightarrow> \<not> sublist ''Bearer '' t"
proof
  assume a: "CHR '' '' \<notin> set t" and "sublist ''Bearer '' t"
  from set_mono_sublist [OF this(2)] have "set ''Bearer '' \<subseteq> set t" .
  with a show False by simp
qed

text \<open>
  C10, the bearer prefix is optional. The token the middleware derives from a header is
  the header with its first occurrence of \<open>''Bearer ''\<close> removed, wherever that occurrence
  stands, and the header itself when it has none. So a header that is a token without
  \<open>''Bearer ''\<close> in it is answered exactly as the same token behind the prefix. When no
  session is filed under the empty token (the tokens the routes issue are 64 hexadecimal
  digits), the answer is 401 exactly when the header is missing or \<open>getSession\<close> finds no
  live session for the derived token.
\<close>

theorem bearer_prefix_optional:
  "((\<forall>j<length p. \<not> prefix ''Bearer '' (drop j (p @ ''Bearer '' @ q))) \<longrightarrow>
       sessionToken_of (Some (p @ ''Bearer '' @ q)) = Some (p @ q))
   \<and> (\<not> sublist ''Bearer '' h \<longrightarrow> sessionToken_of (Some h) = Some h)
   \<and> (\<not> sublist ''Bearer '' t \<longrightarrow>
        authenticateUser storage_getSession (Some t) =
        authenticateUser storage_getSession (Some (''Bearer '' @ t)))
   \<and> (storage_getSession [] = None \<longrightarrow>
        (is_401 (authenticateUser storage_getSession authorization) \<longleftrightarrow>
           authorization = None \<or>
           (\<exists>tok. sessionToken_of authorization = Some tok \<and> storage_getSession tok = None)))"
proof (intro conjI impI)
  assume "\<forall>j<length p. \<not> prefix ''Bearer '' (drop j (p @ ''Bearer '' @ q))"
  then have "String_replace (p @ ''Bearer '' @ q) ''Bearer '' [] = p @ [] @ q"
    by (intro String_replace_first) simp_all
  then show "sessionToken_of (Some (p @ ''Bearer '' @ q)) = Some (p @ q)"
    by (simp add: sessionToken_of_def)
next
  assume "\<not> sublist ''Bearer '' h"
  then show "sessionToken_of (Some h) = Some h"
    by (simp add: sessionToken_of_def String_replace_absent)
next
  assume "\<not> sublist ''Bearer '' t"
  then have "sessionToken_of (Some t) = Some t"
    by (simp add: sessionToken_of_def String_replace_absent)
  moreover have "sessionToken_of (Some (''Bearer '' @ t)) = Some t"
    by (simp add: sessionToken_of_def)
  ultimately show "authenticateUser storage_getSession (Some t) =
        authenticateUser storage_getSession (Some (''Bearer '' @ t))"
    by (simp add: authenticateUser_def)
next
  assume "storage_getSession [] = None"
  then show "is_401 (authenticateUser storage_getSession authorization) \<longleftrightarrow>
           authorization = None \<or>
           (\<exists>tok. sessionToken_of authorization = Some tok \<and> storage_getSession tok = None)"
    by (cases authorization) (auto simp: authenticateUser_def sessionToken_of_def split: option.splits)
qed

theorem bearer_prefix_optional_witness:
  "\<not> prefix ''Bearer '' ''abBearer tokA'' \<and> \<not> prefix ''Bearer '' ''bBearer tokA''
   \<and> sessionToken_of (Some ''abBearer tokA'') = Some ''abtokA''
   \<and> \<not> sublist ''Bearer '' ''tokA''
   \<and> sessionToken_of (Some ''tokA'') = Some ''tokA''
   \<and> authenticateUser (\<lambda>t. MemStorage_getSession mem_a t 50) (Some ''tokA'') =
       authenticateUser (\<lambda>t. MemStorage_getSession mem_a t 50) (Some ''Bearer tokA'')
   \<and> authenticateUser (\<lambda>t. MemStorage_getSession mem_a t 50) (Some ''Bearer tokA'') = Next ''u1''
   \<and> MemStorage_getSession mem_a [] 50 = None
   \<and> is_401 (authenticateUser (\<lambda>t. MemStorage_getSession mem_a t 50) None)
   \<and> is_401 (authenticateUser (\<lambda>t. MemStorage_getSession mem_a t 50) (Some ''Bearer tokB''))
   \<and> \<not> is_401 (authenticateUser (\<lambda>t. MemStorage_getSession mem_a t 50) (Some ''tokA''))"
proof -
  let ?gs = "\<lambda>t. MemStorage_getSession mem_a t 50"
  have 1: "\<forall>j<length ''ab''. \<not> prefix ''Bearer '' (drop j (''ab'' @ ''Bearer '' @ ''tokA''))"
    by (simp add: less_Suc_eq)
  have 2: "\<not> sublist ''Bearer '' ''tokA''"
    by (rule no_space_no_Bearer) simp
  have 3: "?gs [] = None" "?gs ''tokB'' = None" "?gs ''tokA'' = Some session_a"
    by (simp_all add: MemStorage_getSession_def mem_a_sessions Map_get_def session_a_def)
  have 4: "sessionToken_of (Some ''Bearer tokB'') = Some ''tokB''"
    by (simp add: sessionToken_of_def)
  note a = bearer_prefix_optional [of "''ab''" "''tokA''" "''tokA''" "''tokA''" ?gs]
  from a [of None] 1 have c1: "sessionToken_of (Some ''abBearer tokA'') = Some ''abtokA''"
    by simp
  from a [of None] 2 have c2: "sessionToken_of (Some ''tokA'') = Some ''tokA''"
    and c3: "authenticateUser ?gs (Some ''tokA'') = authenticateUser ?gs (Some ''Bearer tokA'')"
    by simp_all
  from a [of None] 3 have c4: "is_401 (authenticateUser ?gs None)"
    by simp
  from a [of "Some ''Bearer tokB''"] 3 4 have c5: "is_401 (authenticateUser ?gs (Some ''Bearer tokB''))"
    by simp
  from a [of "Some ''tokA''"] 3 c2 have c6: "\<not> is_401 (authenticateUser ?gs (Some ''tokA''))"
    by simp
  have c7: "authenticateUser ?gs (Some ''Bearer tokA'') = Next ''u1''"
    by (simp add: authenticateUser_def sessionToken_of_def 3 session_a_def)
  have 0: "\<not> prefix ''Bearer '' ''abBearer tokA''" "\<not> prefix ''Bearer '' ''bBearer tokA''"
    by simp_all
  from 0 2 3(1) c1 c2 c3 c4 c5 c6 c7 show ?thesis
    by blast
qed

subsection \<open>Creating an event and reading it back\<close>

lemma or_null_string_provided:
  "v \<noteq> Present (Some []) \<Longrightarrow> or_null_string v = provided_or v None"
  by (cases v rule: or_null_string.cases) simp_all

lemma or_string_provided: "v \<noteq> Present [] \<Longrightarrow> or_string v d = provided_or v d"
  by (cases v) simp_all

lemma or_false_provided: "v \<noteq> Present None \<Longrightarrow> Some (or_false v) = provided_or v (Some False)"
  by (cases v rule: or_false.cases) simp_all

lemma or_null_Date_id: "or_null_Date d = d"
  by (cases d) simp_all

text \<open>
  Where \<^verbatim>\<open>||\<close> changes nothing the round trip holds: the row read back is the row
  created, it carries the id and the two times given by the environment, and it agrees
  with the input as \<open>roundtrip_spec\<close> says.
\<close>

lemma createEvent_getEvent_roundtrip:
  assumes "MemStorage_createEvent s insertEvent uuid now1 now2 = (s', row)"
  shows "MemStorage_getEvent s' (id_e row) (userId_i insertEvent) = Some row"
    and "id_e row = uuid" and "createdAt_e row = now1" and "updatedAt_e row = now2"
    and "no_falsy_provided insertEvent \<Longrightarrow> roundtrip_spec insertEvent row"
proof -
  from assms show "MemStorage_getEvent s' (id_e row) (userId_i insertEvent) = Some row"
    by (auto simp: MemStorage_createEvent_def MemStorage_getEvent_def Let_def Map_get_set)
  from assms show "id_e row = uuid" "createdAt_e row = now1" "updatedAt_e row = now2"
    by (auto simp: MemStorage_createEvent_def Let_def)
  assume "no_falsy_provided insertEvent"
  with assms show "roundtrip_spec insertEvent row"
    by (auto simp: MemStorage_createEvent_def Let_def roundtrip_spec_def no_falsy_provided_def
        or_null_string_provided or_string_provided or_false_provided or_null_Date_id)
qed

text \<open>
  C6, create and get. The input \<open>insert_blank\<close> provides the description \<^verbatim>\<open>""\<close>.
  \<open>MemStorage_createEvent\<close> stores \<^verbatim>\<open>null\<close> in its place, so the row that
  \<open>MemStorage_getEvent\<close> returns for the new id and the same user does not equal the
  input on a field the input provided.
\<close>

theorem createEvent_drops_empty_description:
  "MemStorage_getEvent (fst (MemStorage_createEvent MemStorage_new insert_blank ''e1'' 5 5))
       ''e1'' ''u1'' = Some event_a
   \<and> snd (MemStorage_createEvent MemStorage_new insert_blank ''e1'' 5 5) = event_a
   \<and> description_i insert_blank = Present (Some [])
   \<and> description_e event_a = None
   \<and> \<not> roundtrip_spec insert_blank event_a"
proof -
  have c: "MemStorage_createEvent MemStorage_new insert_blank ''e1'' 5 5 =
      (MemStorage_new\<lparr>events := [(''e1'', event_a)]\<rparr>, event_a)"
    by (simp add: MemStorage_createEvent_def MemStorage_new_def insert_blank_def insert_a_def
        event_a_def Map_set_def Let_def)
  have g: "MemStorage_getEvent (MemStorage_new\<lparr>events := [(''e1'', event_a)]\<rparr>) ''e1'' ''u1'' =
      Some event_a"
    by (simp add: MemStorage_getEvent_def Map_get_def event_a_def)
  have d: "description_i insert_blank = Present (Some [])"
    by (simp add: insert_blank_def)
  have e: "description_e event_a = None"
    by (simp add: event_a_def)
  have "\<not> roundtrip_spec insert_blank event_a"
    by (simp add: roundtrip_spec_def d e)
  with c g d e show ?thesis by simp
qed

subsection \<open>Categories\<close>

text \<open>
  C8, the category enumeration. \<open>MemStorage_createEvent\<close> stores the category
  \<^verbatim>\<open>holiday\<close> as given, and \<open>MemStorage_updateEvent\<close> writes it into a stored event;
  \<^verbatim>\<open>holiday\<close> is none of the four categories.
\<close>

theorem category_outside_enumeration_is_stored:
  "map_option category_e
     (Map_get (events (fst (MemStorage_createEvent MemStorage_new insert_holiday ''e1'' 5 5))) ''e1'')
     = Some ''holiday''
   \<and> map_option category_e
       (Map_get (events (fst (MemStorage_updateEvent mem_b ''e1'' ''u1'' updates_holiday 9))) ''e1'')
     = Some ''holiday''
   \<and> ''holiday'' \<notin> set categories"
proof -
  have 1: "map_option category_e
     (Map_get (events (fst (MemStorage_createEvent MemStorage_new insert_holiday ''e1'' 5 5))) ''e1'')
     = Some ''holiday''"
    by (simp add: MemStorage_createEvent_def MemStorage_new_def insert_holiday_def insert_a_def
        Map_set_def Map_get_def Let_def)
  have "Map_get (events mem_b) ''e1'' = Some event_a" "userId_e event_a = ''u1''"
    by (simp_all add: mem_b_events Map_get_def event_a_def)
  then have 2: "map_option category_e
       (Map_get (events (fst (MemStorage_updateEvent mem_b ''e1'' ''u1'' updates_holiday 9))) ''e1'')
     = Some ''holiday''"
    by (simp add: MemStorage_updateEvent_def Let_def Map_get_set spread_updates_def
        updates_holiday_def updates_a_def)
  have 3: "''holiday'' \<notin> set categories"
    by (simp add: categories_def)
  from 1 2 3 show ?thesis by blast
qed

subsection \<open>Reminders of a deleted event\<close>

lemma mem_c_unfold: "mem_c = mem_b\<lparr>reminders := [(''r1'', reminder_a)]\<rparr>"
proof -
  have "mem_b = MemStorage_new\<lparr>events := [(''e1'', event_a)]\<rparr>"
    by (simp add: mem_b_def mem_b_created)
  also have "reminders \<dots> = []"
    by (simp add: MemStorage_new_def)
  finally have "reminders mem_b = []" .
  then show ?thesis
    by (simp add: mem_c_def MemStorage_createReminder_def Let_def Map_set_def reminder_a_def)
qed

text \<open>
  In \<open>DatabaseStorage\<close> the foreign key of \<^verbatim>\<open>reminders.event_id\<close> removes the reminders
  with the event: after a \<open>deleteEvent\<close> that returned true no reminder of that event is
  left.
\<close>

lemma DatabaseStorage_deleteEvent_cascade:
  assumes "snd (DatabaseStorage_deleteEvent db i userId)"
  shows "DatabaseStorage_getEventReminders (fst (DatabaseStorage_deleteEvent db i userId)) i = []"
proof -
  let ?deleted = "filter (\<lambda>e. id_e e = i \<and> userId_e e = userId) (events_t db)"
  have "?deleted \<noteq> []"
    using assms by (auto simp: DatabaseStorage_deleteEvent_def Let_def split: if_splits)
  then obtain e where "e \<in> set ?deleted"
    by (cases ?deleted) auto
  then have "i \<in> set (map id_e ?deleted)"
    by force
  then show ?thesis
    by (auto simp: DatabaseStorage_deleteEvent_def DatabaseStorage_getEventReminders_def Let_def
        filter_empty_conv)
qed

text \<open>
  C9, the cascade on deleting an event. In \<open>MemStorage\<close>, with the event \<^verbatim>\<open>e1\<close> of user
  \<^verbatim>\<open>u1\<close> and one reminder attached to it, \<open>deleteEvent\<close> returns true and removes the
  event, and \<open>getEventReminders\<close> still returns the reminder. \<open>DatabaseStorage\<close> on the
  same rows returns true and leaves no reminder.
\<close>

theorem deleteEvent_keeps_reminders:
  "MemStorage_deleteEvent mem_c ''e1'' ''u1'' = (mem_c\<lparr>events := []\<rparr>, True)
   \<and> MemStorage_getEventReminders (mem_c\<lparr>events := []\<rparr>) ''e1'' = [reminder_a]
   \<and> snd (DatabaseStorage_deleteEvent db_b ''e1'' ''u1'')
   \<and> DatabaseStorage_getEventReminders (fst (DatabaseStorage_deleteEvent db_b ''e1'' ''u1'')) ''e1'' = []"
proof -
  have g: "Map_get (events mem_c) ''e1'' = Some event_a" "userId_e event_a = ''u1''"
    "id_e event_a = ''e1''"
    by (simp_all add: mem_c_unfold mem_b_events Map_get_def event_a_def)
  have 1: "MemStorage_deleteEvent mem_c ''e1'' ''u1'' = (mem_c\<lparr>events := []\<rparr>, True)"
    using g by (simp add: MemStorage_deleteEvent_def Map_delete_def Map_get_def mem_c_unfold
        mem_b_events)
  have 2: "MemStorage_getEventReminders (mem_c\<lparr>events := []\<rparr>) ''e1'' = [reminder_a]"
    by (simp add: MemStorage_getEventReminders_def mem_c_unfold Map_values_def reminder_a_def)
  have 3: "snd (DatabaseStorage_deleteEvent db_b ''e1'' ''u1'')"
    by (simp add: DatabaseStorage_deleteEvent_def db_b_def Let_def g)
  from 1 2 3 DatabaseStorage_deleteEvent_cascade [OF 3] show ?thesis by blast
qed

end
